theory Spec2Isabelle
  imports Main "HOL-Library.Char_ord" "HOL-Library.List_Lexorder"
begin

section \<open>Python values used by the three scripts\<close>

text \<open>
  Exceptions are values. \<open>ValueError\<close> is what \<open>str.split\<close> raises on an empty
  separator, \<open>IndexError\<close> what list indexing raises out of range, \<open>KeyError\<close> what
  a data frame raises for a column label it does not have. \<open>RequestException\<close> stands
  for a failed \<open>requests.get\<close> and \<open>OSError\<close> for a file that \<open>gzip\<close> cannot read.
\<close>

datatype py_error = ValueError | IndexError | KeyError | RequestException | OSError

definition ebind :: "py_error + 'a \<Rightarrow> ('a \<Rightarrow> py_error + 'b) \<Rightarrow> py_error + 'b" where
  "ebind m f = (case m of Inl e \<Rightarrow> Inl e | Inr x \<Rightarrow> f x)"

fun mapM :: "('a \<Rightarrow> py_error + 'b) \<Rightarrow> 'a list \<Rightarrow> py_error + 'b list" where
  "mapM f [] = Inr []"
| "mapM f (x # xs) = ebind (f x) (\<lambda>y. ebind (mapM f xs) (\<lambda>ys. Inr (y # ys)))"

text \<open>\<open>s.startswith(p)\<close> and \<open>sub in s\<close> on strings.\<close>

fun startswith :: "string \<Rightarrow> string \<Rightarrow> bool" where
  "startswith s [] = True"
| "startswith [] (p # ps) = False"
| "startswith (c # cs) (p # ps) = (c = p \<and> startswith cs ps)"

fun contains :: "string \<Rightarrow> string \<Rightarrow> bool" where
  "contains [] sub = (sub = [])"
| "contains (c # cs) sub = (startswith (c # cs) sub \<or> contains cs sub)"

text \<open>
  \<open>s.split(sep)\<close>: the string is scanned from the left; wherever the separator starts
  the current piece is closed and the scan resumes after the separator, so occurrences
  are the non-overlapping ones found left to right. The result always has at least one
  piece. An empty separator raises \<open>ValueError\<close>.
\<close>

function split_aux :: "string \<Rightarrow> string \<Rightarrow> string \<Rightarrow> string list" where
  "split_aux sep acc [] = [rev acc]"
| "split_aux sep acc (c # cs) =
     (if startswith (c # cs) sep
      then rev acc # split_aux sep [] (drop (length sep - 1) cs)
      else split_aux sep (c # acc) cs)"
  by pat_completeness auto
termination
  by (relation "measure (\<lambda>(sep, acc, s). length s)") auto

definition py_split :: "string \<Rightarrow> string \<Rightarrow> py_error + string list" where
  "py_split s sep = (if sep = [] then Inl ValueError else Inr (split_aux sep [] s))"

text \<open>\<open>xs[i]\<close>: a negative index counts from the end; out of range raises.\<close>

definition py_index :: "'a list \<Rightarrow> int \<Rightarrow> py_error + 'a" where
  "py_index xs i =
     (if 0 \<le> i \<and> i < int (length xs) then Inr (xs ! nat i)
      else if i < 0 \<and> - i \<le> int (length xs) then Inr (xs ! nat (int (length xs) + i))
      else Inl IndexError)"

text \<open>\<open>xs[:k]\<close>: a negative bound drops that many elements from the end.\<close>

definition py_slice_to :: "'a list \<Rightarrow> int \<Rightarrow> 'a list" where
  "py_slice_to xs k = (if k < 0 then take (length xs - nat (- k)) xs else take (nat k) xs)"

text \<open>\<open>sep.join(xs)\<close>.\<close>

fun join :: "string \<Rightarrow> string list \<Rightarrow> string" where
  "join sep [] = []"
| "join sep [x] = x"
| "join sep (x # y # ys) = x @ sep @ join sep (y # ys)"

text \<open>\<open>'{:,}'.format(n)\<close>: decimal digits in groups of three, counted from the right.\<close>

function digits10 :: "nat \<Rightarrow> string" where
  "digits10 n =
     (if n < 10 then [''0123456789'' ! n]
      else digits10 (n div 10) @ [''0123456789'' ! (n mod 10)])"
  by pat_completeness auto
termination
  by (relation "measure id") auto

function commas :: "string \<Rightarrow> string" where
  "commas s =
     (if length s \<le> 3 then s
      else commas (take (length s - 3) s) @ '','' @ drop (length s - 3) s)"
  by pat_completeness auto
termination
  by (relation "measure length") auto

definition fmt_thousands :: "int \<Rightarrow> string" where
  "fmt_thousands n =
     (if n < 0 then ''-'' @ commas (digits10 (nat (- n))) else commas (digits10 (nat n)))"

text \<open>
  \<open>drop_duplicates()\<close> keeps the first occurrence of every row, in the order of first
  appearance.
\<close>

function drop_duplicates :: "'a list \<Rightarrow> 'a list" where
  "drop_duplicates [] = []"
| "drop_duplicates (x # xs) = x # drop_duplicates (filter (\<lambda>y. y \<noteq> x) xs)"
  by pat_completeness auto
termination
  by (relation "measure length") (auto simp: less_Suc_eq_le)

text \<open>
  \<open>sort_values('counts', ascending=False)\<close>: the rows in descending order of their
  counts. This is a sort on one column with pandas' default \<open>kind='quicksort'\<close>, which
  does not say in which order it leaves rows with equal counts. The model leaves them
  in the order they had; nothing is drawn below from the order of rows with equal
  counts, and the tables that are evaluated have no two rows with equal counts where
  that order could show.
\<close>

definition sort_values_counts_desc :: "('a \<times> 'c) list \<Rightarrow> ('c \<Rightarrow> int) \<Rightarrow> ('a \<times> 'c) list" where
  "sort_values_counts_desc t num = sort_key (\<lambda>r. - num (snd r)) t"

section \<open>Categorizer: \<open>categorize_urls.py\<close>\<close>

text \<open>
  Line 62: \<open>url.split('//')[-1].split('/')[0]\<close>, the entry of \<open>bases\<close> for one URL.
\<close>

definition base_of :: "string \<Rightarrow> py_error + string" where
  "base_of url =
     ebind (py_split url ''//'') (\<lambda>a.
     ebind (py_index a (- 1)) (\<lambda>b.
     ebind (py_split b ''/'') (\<lambda>c.
     py_index c 0)))"

text \<open>
  Lines 70 to 74: \<open>url.split(base)[-1].split('/')[layer]\<close> under a bare \<open>except\<close>
  that appends the empty string whatever was raised.
\<close>

definition page_layer_entry :: "string \<Rightarrow> string \<Rightarrow> int \<Rightarrow> string" where
  "page_layer_entry url base layer =
     (case ebind (py_split url base) (\<lambda>a.
           ebind (py_index a (- 1)) (\<lambda>b.
           ebind (py_split b ''/'') (\<lambda>c.
           py_index c layer)))
      of Inl e \<Rightarrow> [] | Inr s \<Rightarrow> s)"

definition page_layer :: "string list \<Rightarrow> string list \<Rightarrow> int \<Rightarrow> string list" where
  "page_layer urls bases layer =
     map (\<lambda>(url, base). page_layer_entry url base layer) (zip urls bases)"

text \<open>
  \<open>groupby(list(range(0, layers+1)))[0].count().rename('counts').reset_index()\<close>:
  one row per distinct tuple, in ascending order of the tuples (\<open>groupby\<close> sorts its
  keys; Python compares strings by code point, which is the byte order of their UTF-8
  encoding), with the number of frame rows that carry the tuple. No cell of the frame
  is missing, so \<open>count\<close> is the size of the group.
\<close>

definition groupby_count :: "string list list \<Rightarrow> (string list \<times> nat) list" where
  "groupby_count rs = map (\<lambda>k. (k, length (filter (\<lambda>r. r = k) rs))) (sort (remdups rs))"

text \<open>
  \<open>sort_values(list(range(0, layers)), ascending=True)\<close>: the rows in ascending
  lexicographic order of the first \<open>layers\<close> columns. An empty list of columns returns
  the frame as it is. With two or more columns pandas keeps rows with equal keys in
  place. With one column (depth 1) the sort is again the default quicksort, which does
  not keep rows with equal keys in place once the table is longer than a few rows; the
  model keeps them in place there too, so it does not follow the source in the order
  of rows that agree on column 0 at depth 1. Only statements that do not depend on the
  order of the rows are drawn from \<open>peel_layers\<close> below.
\<close>

definition sort_values_cols :: "nat \<Rightarrow> (string list \<times> nat) list \<Rightarrow> (string list \<times> nat) list" where
  "sort_values_cols n t = (if n = 0 then t else sort_key (\<lambda>r. take n (fst r)) t)"

text \<open>
  \<open>peel_layers(urls, layers)\<close> for \<open>layers \<ge> 0\<close>. The frame is built column by column
  as in the source (column 0 is \<open>bases\<close>, column \<open>layer\<close> is \<open>page_layer\<close>); row \<open>j\<close> of
  the frame is the \<open>j\<close>-th entry of every column. The result is the list of rows
  (segments, counts) of the returned frame, in order.
\<close>

definition peel_layers :: "string list \<Rightarrow> nat \<Rightarrow> py_error + (string list \<times> nat) list" where
  "peel_layers urls layers =
     ebind (mapM base_of urls) (\<lambda>bases.
       let cols = bases # map (\<lambda>layer. page_layer urls bases (int layer)) [1..<Suc layers];
           frame_rows = map (\<lambda>j. map (\<lambda>col. col ! j) cols) [0..<length bases]
       in Inr (sort_values_cols layers
                 (sort_values_counts_desc (groupby_count frame_rows) int)))"

subsection \<open>The rule of the specification for path segments\<close>



section \<open>Extractor: \<open>extract_urls.py\<close>\<close>

text \<open>
  \<open>requests.get\<close>, \<open>gzip\<close> and the HTML parser are libraries outside the repository.
  They are parameters of the model: \<open>http_get url\<close> is the content of the page or the
  exception the request raises, \<open>gunzip\<close> the decompressed content of a file or the
  exception raised on reading it, and \<open>find_locs\<close> the texts of the \<open>loc\<close> elements
  of a document or the exception of the parser. The functions of the script have no
  \<open>try\<close> statement, so an exception of a library call leaves the function.
  The warnings that list the skipped entries are printed only and are not modelled.
\<close>

definition get_urls ::
  "(string \<Rightarrow> py_error + string) \<Rightarrow> (string \<Rightarrow> py_error + string list) \<Rightarrow> string
     \<Rightarrow> py_error + string list" where
  "get_urls http_get find_locs url = ebind (http_get url) find_locs"

text \<open>\<open>u[-3:]\<close>: the last three characters, or the whole string when it is shorter.\<close>

definition py_last3 :: "string \<Rightarrow> string" where
  "py_last3 u = drop (length u - 3) u"

text \<open>The loops \<open>for url in urls: links = ...; sitemap_urls += links\<close>.\<close>

fun collect_links ::
  "('a \<Rightarrow> py_error + string list) \<Rightarrow> 'a list \<Rightarrow> string list \<Rightarrow> py_error + string list" where
  "collect_links f [] sitemap_urls = Inr sitemap_urls"
| "collect_links f (x # xs) sitemap_urls =
     ebind (f x) (\<lambda>links. collect_links f xs (sitemap_urls @ links))"

definition get_all_urls ::
  "(string \<Rightarrow> py_error + string) \<Rightarrow> (string \<Rightarrow> py_error + string list) \<Rightarrow> string
     \<Rightarrow> py_error + string list" where
  "get_all_urls http_get find_locs sitemap_url =
     ebind (get_urls http_get find_locs sitemap_url) (\<lambda>urls.
       let urls_not_gz = filter (\<lambda>u. py_last3 u \<noteq> ''.gz'') urls
       in collect_links (get_urls http_get find_locs) urls_not_gz [])"

text \<open>
  The directory \<open>gzip-sitemaps/\<close> is a list of (file name, content); it may hold files
  of earlier runs. Writing a file replaces the content of an existing name and adds a
  new name.
\<close>

definition write_file :: "(string \<times> string) list \<Rightarrow> string \<Rightarrow> string \<Rightarrow> (string \<times> string) list" where
  "write_file dir filename content =
     (if filename \<in> set (map fst dir)
      then map (\<lambda>(n, c). if n = filename then (n, content) else (n, c)) dir
      else dir @ [(filename, content)])"

fun download_all ::
  "(string \<Rightarrow> py_error + string) \<Rightarrow> string list \<Rightarrow> (string \<times> string) list
     \<Rightarrow> py_error + (string \<times> string) list" where
  "download_all http_get [] dir = Inr dir"
| "download_all http_get (url # urls) dir =
     ebind (py_split url ''/'') (\<lambda>pieces.
     ebind (py_index pieces (- 1)) (\<lambda>filename.
     ebind (http_get url) (\<lambda>page.
     download_all http_get urls (write_file dir filename page))))"

text \<open>
  \<open>glob.glob('gzip-sitemaps/*.gz')\<close>: the files whose names end in \<open>.gz\<close> and do not
  start with a dot, whichever run wrote them, in the order in which the file system
  lists the directory. That order is not set by the script: \<open>listing\<close>, which gives the
  files of a directory in the order they are listed, is a parameter of the model.
\<close>

definition glob_gz ::
  "((string \<times> string) list \<Rightarrow> (string \<times> string) list) \<Rightarrow> (string \<times> string) list
     \<Rightarrow> (string \<times> string) list" where
  "glob_gz listing dir =
     filter (\<lambda>(n, c). py_last3 n = ''.gz'' \<and> \<not> startswith n ''.'') (listing dir)"

definition get_gzip_urls ::
  "(string \<Rightarrow> py_error + string) \<Rightarrow> (string \<Rightarrow> py_error + string list) \<Rightarrow> string
     \<Rightarrow> py_error + string list" where
  "get_gzip_urls gunzip find_locs content = ebind (gunzip content) find_locs"

definition get_all_gzip_urls ::
  "(string \<Rightarrow> py_error + string) \<Rightarrow> (string \<Rightarrow> py_error + string) \<Rightarrow>
   (string \<Rightarrow> py_error + string list) \<Rightarrow>
   ((string \<times> string) list \<Rightarrow> (string \<times> string) list) \<Rightarrow> (string \<times> string) list \<Rightarrow> string
     \<Rightarrow> py_error + string list" where
  "get_all_gzip_urls http_get gunzip find_locs listing dir sitemap_url =
     ebind (get_urls http_get find_locs sitemap_url) (\<lambda>urls.
       let urls_gz = filter (\<lambda>u. py_last3 u = ''.gz'') urls
       in ebind (download_all http_get urls_gz dir) (\<lambda>dir'.
            collect_links (\<lambda>(n, c). get_gzip_urls gunzip find_locs c)
              (glob_gz listing dir') []))"

section \<open>Renderer: \<open>visualize_urls.py\<close>\<close>

text \<open>
  The data frame read from \<open>sitemap_layers.csv\<close>: \<open>width\<close> segment columns labelled
  \<open>'0'\<close> to \<open>str(width - 1)\<close> and the column \<open>counts\<close>. A cell is a string, or
  missing (\<open>None\<close>, pandas' NaN): \<open>read_csv\<close> reads an empty field as missing. Every
  row of a frame has \<open>width\<close> cells (\<open>wf_frame\<close>).
\<close>

record frame =
  width :: nat
  rows :: "(string option list \<times> int) list"

definition wf_frame :: "frame \<Rightarrow> bool" where
  "wf_frame df = list_all (\<lambda>r. length (fst r) = width df) (rows df)"

text \<open>
  The body of the \<open>graphviz.Digraph\<close>. \<open>Line\<close> is a line the script writes itself
  (\<open>f.body.extend\<close>), \<open>Attr\<close> the line of \<open>f.attr('node', shape=...)\<close>, \<open>Node name label\<close>
  the line of \<open>f.node(name, label)\<close> and \<open>Edge tail head label\<close> the line of
  \<open>f.edge(tail, head, label)\<close>. The lines are kept structured here, not as the text
  the library writes.
\<close>

datatype item =
  Line string
| Attr string string string
| Node string string
| Edge string string string

text \<open>
  Line 92: \<open>[item.split('"')[1] for item in f.body if 'label' in item]\<close>. A line of
  the script is searched and split as a string; an attribute line holds no \<open>label\<close>.
  A node line and an edge line hold \<open>label\<close>. The library writes a name in double
  quotes when it is not a DOT identifier, and then the first quoted field of a node
  line is the node name and that of an edge line the tail name: this is what
  \<open>scan_item\<close> returns. It is what the source reads for names that hold a character
  other than letters, digits and the underscore (such as \<open>.\<close> or \<open>-\<close>) and hold neither
  \<open>:\<close> nor a double quote. For other names the model does not follow the source: the
  library writes an identifier such as \<open>localhost\<close> without quotes, so that the first
  quoted field is the label, and writes a tail \<open>x:y\<close> as the quoted \<open>x\<close> followed by
  \<open>:y\<close>. Every graph evaluated below has names of the first kind only.
\<close>

definition first_quoted :: "string \<Rightarrow> py_error + string" where
  "first_quoted s = ebind (py_split s [CHR 0x22]) (\<lambda>pieces. py_index pieces 1)"

fun scan_item :: "item \<Rightarrow> py_error + string list" where
  "scan_item (Line s) =
     (if contains s ''label'' then ebind (first_quoted s) (\<lambda>n. Inr [n]) else Inr [])"
| "scan_item (Attr kw k v) = Inr []"
| "scan_item (Node n l) = Inr [n]"
| "scan_item (Edge t h l) = Inr [t]"

definition node_names :: "item list \<Rightarrow> py_error + string list" where
  "node_names body = ebind (mapM scan_item body) (\<lambda>found. Inr (concat found))"

text \<open>
  Lines 98 and 99, the two lines one child adds: the node \<open>'%s-%s' % (connect_to, name)\<close>
  labelled with the segment, and the edge from \<open>connect_to\<close> labelled with the count.
\<close>

fun branch_items :: "string \<Rightarrow> string \<times> int \<Rightarrow> item list" where
  "branch_items connect_to (name, val) =
     [Node (connect_to @ ''-'' @ name) name,
      Edge connect_to (connect_to @ ''-'' @ name) (fmt_thousands val)]"

text \<open>
  \<open>add_branch(f, names, vals, limit, connect_to)\<close>; \<open>names\<close> and \<open>vals\<close> are the two
  columns of \<open>data\<close>, passed here as the list of their pairs.
\<close>

definition add_branch ::
  "item list \<Rightarrow> (string \<times> int) list \<Rightarrow> int \<Rightarrow> string \<Rightarrow> py_error + item list" where
  "add_branch body data limit connect_to =
     ebind (node_names body) (\<lambda>names.
       if connect_to \<noteq> [] \<and> connect_to \<in> set names
       then Inr (body @ concat (map (branch_items connect_to) (py_slice_to data limit)))
       else Inr body)"

text \<open>
  \<open>df.groupby([col])['counts'].sum().reset_index()\<close>: one row per distinct value of
  the column in ascending order, rows whose cell is missing left out, with the sum of
  their counts. The counts of the frame are 64-bit integers and pandas' sum wraps
  around; the model sums unbounded integers, and no sum below comes near the bound.
\<close>

definition groupby_sum :: "nat \<Rightarrow> (string option list \<times> int) list \<Rightarrow> (string \<times> int) list" where
  "groupby_sum col rs =
     map (\<lambda>k. (k, sum_list (map snd (filter (\<lambda>r. fst r ! col = Some k) rs))))
       (sort (remdups (List.map_filter (\<lambda>r. fst r ! col) rs)))"

text \<open>
  Lines 122 to 124: the mask of the rows whose first cells equal the cells of \<open>k\<close>.
  A missing cell equals nothing, itself included.
\<close>

definition cell_eq :: "string option \<Rightarrow> string option \<Rightarrow> bool" where
  "cell_eq a b = (case a of None \<Rightarrow> False | Some x \<Rightarrow> b = Some x)"

definition mask_rows :: "string option list \<Rightarrow> (string option list \<times> int) list
    \<Rightarrow> (string option list \<times> int) list" where
  "mask_rows k rs =
     filter (\<lambda>r. list_all (\<lambda>j. cell_eq (fst r ! j) (k ! j)) [0..<length k]) rs"

text \<open>
  Line 135: \<open>'-'.join(['%s']*i) % tuple(k)\<close>; a missing cell is printed as \<open>nan\<close>.
\<close>

definition fmt_cell :: "string option \<Rightarrow> string" where
  "fmt_cell c = (case c of None \<Rightarrow> ''nan'' | Some s \<Rightarrow> s)"

definition connect_name :: "string option list \<Rightarrow> string" where
  "connect_name k = join ''-'' (map fmt_cell k)"

text \<open>
  Lines 127 and 128, the frame \<open>data\<close> of one parent tuple at layer \<open>i\<close>; the column
  \<open>str(i)\<close> must exist.
\<close>

definition branch_data :: "frame \<Rightarrow> nat \<Rightarrow> string option list \<Rightarrow> py_error + (string \<times> int) list" where
  "branch_data df i k =
     (if i < width df
      then Inr (sort_values_counts_desc (groupby_sum i (mask_rows k (rows df))) id)
      else Inl KeyError)"

text \<open>The loop over \<open>nodes\<close> at layer \<open>i\<close> (lines 119 to 138).\<close>

fun nodes_loop ::
  "frame \<Rightarrow> int \<Rightarrow> nat \<Rightarrow> string option list list \<Rightarrow> item list \<Rightarrow> py_error + item list" where
  "nodes_loop df limit i [] body = Inr body"
| "nodes_loop df limit i (k # ks) body =
     ebind (branch_data df i k) (\<lambda>data.
     ebind (add_branch body data limit (connect_name k)) (\<lambda>body'.
     nodes_loop df limit i ks body'))"

text \<open>
  One turn of the loop over the layers (lines 116 to 138): \<open>df[cols]\<close> needs the
  columns \<open>'0'\<close> to \<open>str(i - 1)\<close>.
\<close>

definition layer_step :: "frame \<Rightarrow> int \<Rightarrow> nat \<Rightarrow> item list \<Rightarrow> py_error + item list" where
  "layer_step df limit i body =
     (if i \<le> width df
      then nodes_loop df limit i (drop_duplicates (map (\<lambda>r. take i (fst r)) (rows df))) body
      else Inl KeyError)"

fun layers_loop :: "frame \<Rightarrow> int \<Rightarrow> nat list \<Rightarrow> item list \<Rightarrow> py_error + item list" where
  "layers_loop df limit [] body = Inr body"
| "layers_loop df limit (i # is) body =
     ebind (layer_step df limit i body) (\<lambda>body'. layers_loop df limit is body')"

text \<open>Lines 77 to 80: the depth that is plotted, and whether the message is printed.\<close>

definition clamp_layers :: "frame \<Rightarrow> int \<Rightarrow> int \<times> bool" where
  "clamp_layers df layers =
     (if layers > int (length (rows df)) - 1
      then (int (length (rows df)) - 1, True)
      else (layers, False))"

text \<open>
  Lines 105 to 107: one node per value of column \<open>'0'\<close>, largest sum first, labelled
  \<open>'{} ({:,})'.format(name, counts)\<close>.
\<close>

fun host_item :: "string \<times> int \<Rightarrow> item" where
  "host_item (name, counts) = Node name (name @ '' ('' @ fmt_thousands counts @ '')'')"

definition first_layer :: "frame \<Rightarrow> py_error + item list" where
  "first_layer df =
     (if 0 < width df
      then Inr (map host_item (sort_values_counts_desc (groupby_sum 0 (rows df)) id))
      else Inl KeyError)"

text \<open>
  \<open>make_sitemap_graph(df, layers, limit, size)\<close> (\<open>size\<close> is \<open>size_arg\<close> here). The result is the depth that was
  plotted (it names the output file), whether the clamping message was printed, and
  the body of the graph.
\<close>

definition make_sitemap_graph ::
  "frame \<Rightarrow> int \<Rightarrow> int \<Rightarrow> string \<Rightarrow> py_error + (int \<times> bool \<times> item list)" where
  "make_sitemap_graph df layers0 limit size_arg =
     (let (layers, warned) = clamp_layers df layers0;
          body0 = [Line ''rankdir=LR'',
                   Line (''size='' @ [CHR 0x22] @ size_arg @ [CHR 0x22]),
                   Attr ''node'' ''shape'' ''rectangle'']
      in ebind (first_layer df) (\<lambda>hosts.
           if layers = 0 then Inr (layers, warned, body0 @ hosts)
           else ebind (layers_loop df limit [1..<nat (layers + 1)]
                         (body0 @ hosts @ [Attr ''node'' ''shape'' ''oval'']))
                  (\<lambda>body. Inr (layers, warned, body))))"

text \<open>
  The depth the specification asks for: the table of the Categorizer has the columns
  \<open>'0'\<close> to \<open>str(depth)\<close>, so the deepest layer that can be plotted is
  \<open>width - 1\<close>.
\<close>

definition max_available_depth :: "frame \<Rightarrow> int" where
  "max_available_depth df = int (width df) - 1"

section \<open>Properties of graph bodies\<close>

text \<open>\<open>node_set body\<close>: the names of the node lines of a body.\<close>

fun node_set :: "item list \<Rightarrow> string set" where
  "node_set [] = {}"
| "node_set (Node n l # xs) = insert n (node_set xs)"
| "node_set (x # xs) = node_set xs"

section \<open>Lemmas on the Python primitives\<close>

lemma split_aux_nonempty: "split_aux sep acc s \<noteq> []"
  by (induction sep acc s rule: split_aux.induct) auto

lemma py_index_last: "xs \<noteq> [] \<Longrightarrow> py_index xs (- 1) = Inr (last xs)"
  by (cases xs rule: rev_cases) (auto simp: py_index_def nth_append)

lemma py_index_first: "xs \<noteq> [] \<Longrightarrow> py_index xs 0 = Inr (hd xs)"
  by (cases xs) (auto simp: py_index_def)


lemma no_sep_split: "\<not> contains s sep \<Longrightarrow> split_aux sep acc s = [rev acc @ s]"
  by (induction s arbitrary: acc) auto

lemma hd_split_char:
  "hd (split_aux [d] acc s) = rev acc @ takeWhile (\<lambda>c. c \<noteq> d) s"
  by (induction s arbitrary: acc) auto

lemma mapM_total: "(\<And>x. f x = Inr (g x)) \<Longrightarrow> mapM f xs = Inr (map g xs)"
  by (induction xs) (auto simp: ebind_def)

lemma sum_list_insort_key:
  "sum_list (map g (insort_key f x xs)) = g x + sum_list (map g xs)"
  for g :: "'a \<Rightarrow> nat"
  by (induction xs) auto

lemma sum_list_sort_key:
  "sum_list (map g (sort_key f xs)) = sum_list (map g xs)"
  for g :: "'a \<Rightarrow> nat"
  by (induction xs) (auto simp: sum_list_insort_key)

lemma length_filter_eq_count: "length (filter (\<lambda>r. r = k) rs) = count_list rs k"
  by (induction rs) auto

lemma count_list_map_inj:
  "inj f \<Longrightarrow> count_list (map f xs) (f b) = count_list xs b"
  by (induction xs) (auto dest: injD)

section \<open>Categorizer: the aggregation table\<close>

lemma base_of_total:
  "base_of url = Inr (hd (split_aux ''/'' [] (last (split_aux ''//'' [] url))))"
  by (simp add: base_of_def py_split_def ebind_def py_index_last py_index_first split_aux_nonempty)

lemma frame_rows_rowwise:
  assumes "length bases = length urls"
  shows "map (\<lambda>j. map (\<lambda>col. col ! j) (bases # map (\<lambda>layer. page_layer urls bases (int layer)) ls))
           [0..<length bases] =
         map (\<lambda>(u, b). b # map (\<lambda>layer. page_layer_entry u b (int layer)) ls) (zip urls bases)"
proof (rule nth_equalityI)
  show "length (map (\<lambda>j. map (\<lambda>col. col ! j) (bases # map (\<lambda>layer. page_layer urls bases (int layer)) ls))
           [0..<length bases]) =
        length (map (\<lambda>(u, b). b # map (\<lambda>layer. page_layer_entry u b (int layer)) ls) (zip urls bases))"
    using assms by simp
next
  fix i
  assume "i < length (map (\<lambda>j. map (\<lambda>col. col ! j) (bases # map (\<lambda>layer. page_layer urls bases (int layer)) ls))
           [0..<length bases])"
  then have i: "i < length urls" "i < length bases" using assms by simp_all
  then show "map (\<lambda>j. map (\<lambda>col. col ! j) (bases # map (\<lambda>layer. page_layer urls bases (int layer)) ls))
           [0..<length bases] ! i =
         map (\<lambda>(u, b). b # map (\<lambda>layer. page_layer_entry u b (int layer)) ls) (zip urls bases) ! i"
    by (simp add: page_layer_def)
qed

lemma peel_layers_rowwise:
  assumes "\<And>u. base_of u = Inr (H u)"
  shows "peel_layers urls layers =
     Inr (sort_values_cols layers (sort_values_counts_desc (groupby_count
       (map (\<lambda>u. H u # map (\<lambda>layer. page_layer_entry u (H u) (int layer)) [1..<Suc layers]) urls)) int))"
proof -
  have z: "zip urls (map H urls) = map (\<lambda>u. (u, H u)) urls"
    by (induction urls) auto
  have "map (\<lambda>j. map (\<lambda>col. col ! j)
            (map H urls # map (\<lambda>layer. page_layer urls (map H urls) (int layer)) [1..<Suc layers]))
          [0..<length (map H urls)] =
        map (\<lambda>u. H u # map (\<lambda>layer. page_layer_entry u (H u) (int layer)) [1..<Suc layers]) urls"
    by (subst frame_rows_rowwise) (simp_all add: z comp_def del: upt_Suc)
  then show ?thesis
    by (simp add: peel_layers_def mapM_total[of base_of H, OF assms] ebind_def Let_def del: upt_Suc)
qed

lemma sum_groupby_count: "sum_list (map snd (groupby_count rs)) = length rs"
proof -
  have "sum_list (map snd (groupby_count rs)) = sum_list (map (count_list rs) (sort (remdups rs)))"
    by (simp add: groupby_count_def comp_def length_filter_eq_count)
  also have "\<dots> = sum_list (map (count_list rs) (remdups rs))"
    by (rule sum_list_sort_key)
  also have "\<dots> = sum (count_list rs) (set rs)"
    by (simp add: sum_list_distinct_conv_sum_set)
  also have "\<dots> = length rs"
    by (simp add: sum_count_set)
  finally show ?thesis .
qed

lemma sum_sort_values_cols: "sum_list (map snd (sort_values_cols n t)) = sum_list (map snd t)"
  by (simp add: sort_values_cols_def sum_list_sort_key)

lemma sum_sort_values_counts:
  "sum_list (map snd (sort_values_counts_desc t int)) = sum_list (map snd t)"
  by (simp add: sort_values_counts_desc_def sum_list_sort_key)

lemma set_groupby_count: "set (groupby_count rs) = (\<lambda>k. (k, count_list rs k)) ` set rs"
  by (auto simp: groupby_count_def length_filter_eq_count)


lemma distinct_fst_groupby_count: "distinct (map fst (groupby_count rs))"
  by (simp add: groupby_count_def comp_def)

lemma distinct_fst_sort_key: "distinct (map fst (sort_key f t)) = distinct (map fst t)"
  by (simp add: distinct_map)

text \<open>
  Claim C1. For every sequence of URLs and every depth, \<open>peel_layers\<close> returns a table,
  and the counts of its rows add up to the number of URLs.
\<close>

theorem peel_layers_counts_sum:
  "\<exists>t. peel_layers urls layers = Inr t \<and> sum_list (map snd t) = length urls"
  by (simp add: peel_layers_rowwise[OF base_of_total] sum_sort_values_cols
      sum_sort_values_counts sum_groupby_count del: upt_Suc)

theorem peel_layers_counts_sum_witness:
  "\<exists>t. peel_layers [''http://a.com/x/y'', ''http://a.com/x/z'', ''http://a.com/x/y''] 2 = Inr t \<and>
       sum_list (map snd t) = 3"
  using peel_layers_counts_sum[of "[''http://a.com/x/y'', ''http://a.com/x/z'', ''http://a.com/x/y'']" 2]
  by (simp add: numeral_3_eq_3)

text \<open>
  Claim C9. With depth 0 \<open>peel_layers\<close> returns a table with one row per distinct host
  (no host twice, every host of the input once), and the count of a row is the number
  of input URLs with that host. \<open>bases\<close> is the list of the hosts of the URLs, in order.
\<close>

theorem peel_layers_depth_zero:
  "\<exists>bases t. map base_of urls = map Inr bases \<and> peel_layers urls 0 = Inr t \<and>
      distinct (map fst t) \<and> set t = (\<lambda>b. ([b], count_list bases b)) ` set bases"
proof -
  define H where "H = (\<lambda>u. hd (split_aux ''/'' [] (last (split_aux ''//'' [] u))))"
  have H: "\<And>u. base_of u = Inr (H u)" by (simp add: H_def base_of_total)
  define t where "t = sort_values_counts_desc (groupby_count (map (\<lambda>u. [H u]) urls)) int"
  have p: "peel_layers urls 0 = Inr t"
    by (simp add: peel_layers_rowwise[of H, OF H] sort_values_cols_def t_def)
  have d: "distinct (map fst t)"
    by (simp add: t_def sort_values_counts_desc_def distinct_fst_sort_key distinct_fst_groupby_count)
  have inj: "inj (\<lambda>b::string. [b])" by (simp add: inj_def)
  have "map (\<lambda>u. [H u]) urls = map (\<lambda>b. [b]) (map H urls)" by simp
  then have s: "set t = (\<lambda>b. ([b], count_list (map H urls) b)) ` set (map H urls)"
    by (auto simp: t_def sort_values_counts_desc_def set_groupby_count image_iff
        count_list_map_inj[OF inj] simp del: map_map)
  have "map base_of urls = map Inr (map H urls)" by (simp add: H)
  with p d s show ?thesis by blast
qed

theorem peel_layers_depth_zero_witness:
  "peel_layers [''http://b.com/x'', ''http://a.com/x/z'', ''http://a.com/y'', ''http://a.com/y'',
                ''http://b.com/x''] 0 = Inr [([''a.com''], 3), ([''b.com''], 2)] \<and>
   (\<exists>bases t. map base_of [''http://b.com/x'', ''http://a.com/x/z'', ''http://a.com/y'',
                  ''http://a.com/y'', ''http://b.com/x''] = map Inr bases \<and>
      peel_layers [''http://b.com/x'', ''http://a.com/x/z'', ''http://a.com/y'', ''http://a.com/y'',
                ''http://b.com/x''] 0 = Inr t \<and>
      distinct (map fst t) \<and> set t = (\<lambda>b. ([b], count_list bases b)) ` set bases)"
proof -
  have e: "peel_layers [''http://b.com/x'', ''http://a.com/x/z'', ''http://a.com/y'', ''http://a.com/y'',
                ''http://b.com/x''] 0 = Inr [([''a.com''], 3), ([''b.com''], 2)]"
    by code_simp
  from peel_layers_depth_zero[of "[''http://b.com/x'', ''http://a.com/x/z'', ''http://a.com/y'',
                  ''http://a.com/y'', ''http://b.com/x'']"] e
  show ?thesis by blast
qed

section \<open>Categorizer: hosts and path segments\<close>




text \<open>
  Claim C6, as stated, fails in its second half. For \<open>a.com/x\<close>, which has no \<open>//\<close>,
  host extraction does not raise, but the host is \<open>a.com\<close>: neither the whole string
  nor the empty string, and the URL keeps its further segment \<open>x\<close>.
\<close>

theorem host_without_scheme_is_prefix:
  "\<not> contains ''a.com/x'' ''//'' \<and>
   base_of ''a.com/x'' = Inr ''a.com'' \<and>
   base_of ''a.com/x'' \<noteq> Inr ''a.com/x'' \<and>
   base_of ''a.com/x'' \<noteq> Inr [] \<and>
   page_layer_entry ''a.com/x'' ''a.com'' 1 = ''x''"
  by (simp add: base_of_def page_layer_entry_def py_split_def ebind_def py_index_def)

text \<open>
  Claim C6, amended. For every string without \<open>//\<close> host extraction does not raise,
  and one rule applies: the host is the part of the string before its first \<open>/\<close> (the
  whole string when it has none). Further segments are derived as for any other URL.
\<close>

theorem base_of_without_scheme:
  "\<not> contains url ''//'' \<Longrightarrow> base_of url = Inr (takeWhile (\<lambda>c. c \<noteq> CHR ''/'') url)"
  by (simp add: base_of_total no_sep_split hd_split_char)

theorem base_of_without_scheme_witness:
  "\<not> contains ''a.com/x/y'' ''//'' \<and> base_of ''a.com/x/y'' = Inr ''a.com''"
proof -
  have c: "\<not> contains ''a.com/x/y'' ''//''" by simp
  from base_of_without_scheme[OF c] c show ?thesis by simp
qed

section \<open>Extractor: a child document that fails\<close>

lemma collect_links_fails:
  "x \<in> set xs \<Longrightarrow> f x = Inl e \<Longrightarrow> \<exists>e'. collect_links f xs acc = Inl e'"
proof (induction xs arbitrary: acc)
  case Nil
  then show ?case by simp
next
  case (Cons y ys)
  then show ?case by (cases "f y") (auto simp: ebind_def)
qed

lemma collect_links_Inr:
  "collect_links f xs acc = Inr links \<Longrightarrow>
   \<exists>found. map f xs = map Inr found \<and> links = acc @ concat found"
proof (induction xs arbitrary: acc)
  case Nil
  then show ?case by simp
next
  case (Cons y ys)
  then obtain ls where y: "f y = Inr ls" and r: "collect_links f ys (acc @ ls) = Inr links"
    by (cases "f y") (auto simp: ebind_def)
  from Cons.IH[OF r] obtain found where "map f ys = map Inr found" "links = (acc @ ls) @ concat found"
    by blast
  with y show ?case by (intro exI[of _ "ls # found"]) simp
qed

lemma download_all_fails:
  "u \<in> set urls \<Longrightarrow> http_get u = Inl e \<Longrightarrow> \<exists>e'. download_all http_get urls dir = Inl e'"
proof (induction urls arbitrary: dir)
  case Nil
  then show ?case by simp
next
  case (Cons y ys)
  show ?case
  proof (cases "http_get y")
    case (Inl a)
    then show ?thesis by (auto simp: ebind_def split: sum.splits)
  next
    case (Inr page)
    with Cons have "u \<in> set ys" by auto
    from Cons.IH[OF this Cons.prems(2)] Inr show ?thesis
      by (auto simp: ebind_def split: sum.splits)
  qed
qed

lemma download_all_Inr:
  "download_all http_get urls dir = Inr dir' \<Longrightarrow> \<exists>pages. map http_get urls = map Inr pages"
proof (induction urls arbitrary: dir)
  case Nil
  then show ?case by simp
next
  case (Cons y ys)
  then obtain page d1 where y: "http_get y = Inr page" and r: "download_all http_get ys d1 = Inr dir'"
    by (cases "http_get y") (auto simp: ebind_def split: sum.splits)
  from Cons.IH[OF r] obtain pages where "map http_get ys = map Inr pages" by blast
  with y show ?case by (intro exI[of _ "page # pages"]) simp
qed

text \<open>
  Claim C5 fails on the code. The index lists three children and the request for the
  second one raises; the first and the third can be fetched and parsed. Both
  \<open>get_all_urls\<close> and \<open>get_all_gzip_urls\<close> end with the exception of the second child
  and return no URL at all, not the URLs of the two children that succeeded.
\<close>

theorem failing_child_aborts_example:
  "get_urls (\<lambda>u. if u = ''http://s.com/b.xml'' then Inl RequestException else Inr u)
     (\<lambda>c. if c = ''http://s.com/index.xml''
           then Inr [''http://s.com/a.xml'', ''http://s.com/b.xml'', ''http://s.com/c.xml'']
           else Inr [c @ ''/page'']) ''http://s.com/a.xml'' = Inr [''http://s.com/a.xml/page''] \<and>
   get_urls (\<lambda>u. if u = ''http://s.com/b.xml'' then Inl RequestException else Inr u)
     (\<lambda>c. if c = ''http://s.com/index.xml''
           then Inr [''http://s.com/a.xml'', ''http://s.com/b.xml'', ''http://s.com/c.xml'']
           else Inr [c @ ''/page'']) ''http://s.com/c.xml'' = Inr [''http://s.com/c.xml/page''] \<and>
   get_all_urls (\<lambda>u. if u = ''http://s.com/b.xml'' then Inl RequestException else Inr u)
     (\<lambda>c. if c = ''http://s.com/index.xml''
           then Inr [''http://s.com/a.xml'', ''http://s.com/b.xml'', ''http://s.com/c.xml'']
           else Inr [c @ ''/page'']) ''http://s.com/index.xml'' = Inl RequestException \<and>
   get_all_urls (\<lambda>u. if u = ''http://s.com/b.xml'' then Inl RequestException else Inr u)
     (\<lambda>c. if c = ''http://s.com/index.xml''
           then Inr [''http://s.com/a.xml'', ''http://s.com/b.xml'', ''http://s.com/c.xml'']
           else Inr [c @ ''/page'']) ''http://s.com/index.xml''
     \<noteq> Inr [''http://s.com/a.xml/page'', ''http://s.com/c.xml/page''] \<and>
   get_all_gzip_urls (\<lambda>u. if u = ''http://s.com/b.gz'' then Inl RequestException else Inr u)
     Inr
     (\<lambda>c. if c = ''http://s.com/index.xml''
           then Inr [''http://s.com/a.gz'', ''http://s.com/b.gz'', ''http://s.com/c.gz'']
           else Inr [c @ ''/page'']) (\<lambda>d. d) [] ''http://s.com/index.xml'' = Inl RequestException"
  by (simp add: get_all_urls_def get_all_gzip_urls_def get_urls_def ebind_def py_last3_def
      py_split_def py_index_def write_file_def)

text \<open>
  Claim C5, amended. In index mode a child whose fetch or parse raises ends the run
  with an exception, and no URL is returned: for \<open>get_all_urls\<close> any child that is not
  a \<open>.gz\<close> entry and whose \<open>get_urls\<close> raises (part 1); for \<open>get_all_gzip_urls\<close> any
  \<open>.gz\<close> child whose download raises (part 2), and any file that \<open>glob\<close> finds in the
  directory after the downloads and that cannot be read or parsed (part 3).
  \<open>get_all_urls\<close> returns URLs only when every child it fetches succeeded, and then
  returns the URLs of all of them, concatenated in the order of the index (part 4).
  \<open>get_all_gzip_urls\<close> returns URLs only when every \<open>.gz\<close> child was downloaded and
  every \<open>.gz\<close> file then found in the directory was read and parsed; what it returns
  is the URLs of those files, concatenated in the order in which \<open>glob\<close> lists them
  (part 5). That is not the order of the index, and not the children only: the
  directory keeps the \<open>.gz\<close> files of earlier runs, and a child replaces a file of
  the same name.
\<close>

theorem child_failure_aborts_run:
  "(get_urls http_get find_locs sitemap_url = Inr urls \<and> child \<in> set urls \<and>
      py_last3 child \<noteq> ''.gz'' \<and> get_urls http_get find_locs child = Inl e
      \<longrightarrow> (\<exists>e'. get_all_urls http_get find_locs sitemap_url = Inl e')) \<and>
   (get_urls http_get find_locs sitemap_url = Inr urls \<and> child \<in> set urls \<and>
      py_last3 child = ''.gz'' \<and> http_get child = Inl e
      \<longrightarrow> (\<exists>e'. get_all_gzip_urls http_get gunzip find_locs listing dir sitemap_url = Inl e')) \<and>
   (get_urls http_get find_locs sitemap_url = Inr urls \<and>
      download_all http_get (filter (\<lambda>u. py_last3 u = ''.gz'') urls) dir = Inr dir' \<and>
      (n, c) \<in> set (glob_gz listing dir') \<and> get_gzip_urls gunzip find_locs c = Inl e
      \<longrightarrow> (\<exists>e'. get_all_gzip_urls http_get gunzip find_locs listing dir sitemap_url = Inl e')) \<and>
   (get_urls http_get find_locs sitemap_url = Inr urls \<and>
      get_all_urls http_get find_locs sitemap_url = Inr links
      \<longrightarrow> (\<exists>found. map (get_urls http_get find_locs) (filter (\<lambda>u. py_last3 u \<noteq> ''.gz'') urls)
                       = map Inr found \<and> links = concat found)) \<and>
   (get_urls http_get find_locs sitemap_url = Inr urls \<and>
      get_all_gzip_urls http_get gunzip find_locs listing dir sitemap_url = Inr links
      \<longrightarrow> (\<exists>pages dir' found.
             map http_get (filter (\<lambda>u. py_last3 u = ''.gz'') urls) = map Inr pages \<and>
             download_all http_get (filter (\<lambda>u. py_last3 u = ''.gz'') urls) dir = Inr dir' \<and>
             map (\<lambda>(n, c). get_gzip_urls gunzip find_locs c) (glob_gz listing dir')
               = map Inr found \<and>
             links = concat found))"
proof (intro conjI impI)
  assume a: "get_urls http_get find_locs sitemap_url = Inr urls \<and> child \<in> set urls \<and>
      py_last3 child \<noteq> ''.gz'' \<and> get_urls http_get find_locs child = Inl e"
  then have "child \<in> set (filter (\<lambda>u. py_last3 u \<noteq> ''.gz'') urls)" by simp
  from collect_links_fails[OF this, of "get_urls http_get find_locs" e "[]"] a
  show "\<exists>e'. get_all_urls http_get find_locs sitemap_url = Inl e'"
    by (simp add: get_all_urls_def ebind_def)
next
  assume a: "get_urls http_get find_locs sitemap_url = Inr urls \<and> child \<in> set urls \<and>
      py_last3 child = ''.gz'' \<and> http_get child = Inl e"
  then have "child \<in> set (filter (\<lambda>u. py_last3 u = ''.gz'') urls)" by simp
  from download_all_fails[OF this, of http_get e dir] a
  show "\<exists>e'. get_all_gzip_urls http_get gunzip find_locs listing dir sitemap_url = Inl e'"
    by (auto simp: get_all_gzip_urls_def ebind_def)
next
  assume a: "get_urls http_get find_locs sitemap_url = Inr urls \<and>
      download_all http_get (filter (\<lambda>u. py_last3 u = ''.gz'') urls) dir = Inr dir' \<and>
      (n, c) \<in> set (glob_gz listing dir') \<and> get_gzip_urls gunzip find_locs c = Inl e"
  then have "\<exists>e'. collect_links (\<lambda>(n, c). get_gzip_urls gunzip find_locs c)
      (glob_gz listing dir') [] = Inl e'"
    by (intro collect_links_fails[of "(n, c)"]) auto
  with a show "\<exists>e'. get_all_gzip_urls http_get gunzip find_locs listing dir sitemap_url = Inl e'"
    by (auto simp: get_all_gzip_urls_def ebind_def)
next
  assume a: "get_urls http_get find_locs sitemap_url = Inr urls \<and>
      get_all_urls http_get find_locs sitemap_url = Inr links"
  then have "collect_links (get_urls http_get find_locs)
      (filter (\<lambda>u. py_last3 u \<noteq> ''.gz'') urls) [] = Inr links"
    by (auto simp: get_all_urls_def ebind_def)
  from collect_links_Inr[OF this]
  show "\<exists>found. map (get_urls http_get find_locs) (filter (\<lambda>u. py_last3 u \<noteq> ''.gz'') urls)
                       = map Inr found \<and> links = concat found"
    by simp
next
  assume a: "get_urls http_get find_locs sitemap_url = Inr urls \<and>
      get_all_gzip_urls http_get gunzip find_locs listing dir sitemap_url = Inr links"
  then obtain dir' where d: "download_all http_get (filter (\<lambda>u. py_last3 u = ''.gz'') urls) dir = Inr dir'"
    and c: "collect_links (\<lambda>(n, c). get_gzip_urls gunzip find_locs c)
              (glob_gz listing dir') [] = Inr links"
    by (auto simp: get_all_gzip_urls_def ebind_def split: sum.splits)
  from download_all_Inr[OF d] obtain pages
    where p: "map http_get (filter (\<lambda>u. py_last3 u = ''.gz'') urls) = map Inr pages"
    by blast
  from collect_links_Inr[OF c] obtain found
    where f: "map (\<lambda>(n, c). get_gzip_urls gunzip find_locs c) (glob_gz listing dir') = map Inr found"
      "links = concat found"
    by auto
  from p d f show "\<exists>pages dir' found.
             map http_get (filter (\<lambda>u. py_last3 u = ''.gz'') urls) = map Inr pages \<and>
             download_all http_get (filter (\<lambda>u. py_last3 u = ''.gz'') urls) dir = Inr dir' \<and>
             map (\<lambda>(n, c). get_gzip_urls gunzip find_locs c) (glob_gz listing dir')
               = map Inr found \<and>
             links = concat found"
    by blast
qed

theorem child_failure_aborts_run_witness:
  "get_urls (\<lambda>u. if u = ''http://s.com/b.xml'' then Inl RequestException else Inr u)
     (\<lambda>c. if c = ''http://s.com/index.xml''
           then Inr [''http://s.com/a.xml'', ''http://s.com/b.xml'', ''http://s.com/c.xml'']
           else Inr [c @ ''/page'']) ''http://s.com/index.xml''
     = Inr [''http://s.com/a.xml'', ''http://s.com/b.xml'', ''http://s.com/c.xml''] \<and>
   ''http://s.com/b.xml'' \<in> set [''http://s.com/a.xml'', ''http://s.com/b.xml'', ''http://s.com/c.xml''] \<and>
   py_last3 ''http://s.com/b.xml'' \<noteq> ''.gz'' \<and>
   get_urls (\<lambda>u. if u = ''http://s.com/b.xml'' then Inl RequestException else Inr u)
     (\<lambda>c. if c = ''http://s.com/index.xml''
           then Inr [''http://s.com/a.xml'', ''http://s.com/b.xml'', ''http://s.com/c.xml'']
           else Inr [c @ ''/page'']) ''http://s.com/b.xml'' = Inl RequestException \<and>
   (\<exists>e'. get_all_urls (\<lambda>u. if u = ''http://s.com/b.xml'' then Inl RequestException else Inr u)
     (\<lambda>c. if c = ''http://s.com/index.xml''
           then Inr [''http://s.com/a.xml'', ''http://s.com/b.xml'', ''http://s.com/c.xml'']
           else Inr [c @ ''/page'']) ''http://s.com/index.xml'' = Inl e') \<and>
   get_all_gzip_urls Inr Inr
     (\<lambda>c. if c = ''http://s.com/index.xml'' then Inr [''http://s.com/new.gz'']
           else Inr [c @ ''/page''])
     (\<lambda>d. d) [(''old.gz'', ''old'')] ''http://s.com/index.xml''
     = Inr [''old/page'', ''http://s.com/new.gz/page''] \<and>
   get_all_gzip_urls Inr Inr
     (\<lambda>c. if c = ''http://s.com/index.xml'' then Inr [''http://s.com/a/x.gz'', ''http://s.com/b/x.gz'']
           else Inr [c @ ''/page''])
     (\<lambda>d. d) [] ''http://s.com/index.xml''
     = Inr [''http://s.com/b/x.gz/page'']"
proof -
  have o: "get_all_gzip_urls Inr Inr
     (\<lambda>c. if c = ''http://s.com/index.xml'' then Inr [''http://s.com/a/x.gz'', ''http://s.com/b/x.gz'']
           else Inr [c @ ''/page''])
     (\<lambda>d. d) [] ''http://s.com/index.xml''
     = Inr [''http://s.com/b/x.gz/page'']"
    by (simp add: get_all_gzip_urls_def get_urls_def get_gzip_urls_def ebind_def py_last3_def
        py_split_def py_index_def write_file_def glob_gz_def)
  have z: "get_all_gzip_urls Inr Inr
     (\<lambda>c. if c = ''http://s.com/index.xml'' then Inr [''http://s.com/new.gz'']
           else Inr [c @ ''/page''])
     (\<lambda>d. d) [(''old.gz'', ''old'')] ''http://s.com/index.xml''
     = Inr [''old/page'', ''http://s.com/new.gz/page'']"
    by (simp add: get_all_gzip_urls_def get_urls_def get_gzip_urls_def ebind_def py_last3_def
        py_split_def py_index_def write_file_def glob_gz_def)
  define hg :: "string \<Rightarrow> py_error + string"
    where "hg = (\<lambda>u. if u = ''http://s.com/b.xml'' then Inl RequestException else Inr u)"
  define fl :: "string \<Rightarrow> py_error + string list"
    where "fl = (\<lambda>c. if c = ''http://s.com/index.xml''
           then Inr [''http://s.com/a.xml'', ''http://s.com/b.xml'', ''http://s.com/c.xml'']
           else Inr [c @ ''/page''])"
  have i: "get_urls hg fl ''http://s.com/index.xml''
     = Inr [''http://s.com/a.xml'', ''http://s.com/b.xml'', ''http://s.com/c.xml'']"
    by (simp add: get_urls_def ebind_def hg_def fl_def)
  have m: "''http://s.com/b.xml'' \<in> set [''http://s.com/a.xml'', ''http://s.com/b.xml'', ''http://s.com/c.xml'']"
    by simp
  have g: "py_last3 ''http://s.com/b.xml'' \<noteq> ''.gz''" by (simp add: py_last3_def)
  have f: "get_urls hg fl ''http://s.com/b.xml'' = Inl RequestException"
    by (simp add: get_urls_def ebind_def hg_def fl_def)
  from child_failure_aborts_run[where http_get = hg and find_locs = fl
      and sitemap_url = "''http://s.com/index.xml''" and child = "''http://s.com/b.xml''"
      and urls = "[''http://s.com/a.xml'', ''http://s.com/b.xml'', ''http://s.com/c.xml'']"
      and e = RequestException] i m g f
  have "\<exists>e'. get_all_urls hg fl ''http://s.com/index.xml'' = Inl e'"
    by blast
  with i m g f z o show ?thesis unfolding hg_def fl_def by blast
qed

section \<open>Renderer: the parent a branch hangs on\<close>

text \<open>
  Claim C7 against the code. \<open>add_branch\<close> looks the parent up by its joined name in
  the whole graph body, not among the nodes of the previous layer. In the table below
  the limit 1 keeps, at layer 1, only the child \<open>b\<close> of \<open>a.com\<close>: the graph built up to
  layer 1 has no node \<open>a.com-b-c\<close>, and the parent tuple (\<open>a.com\<close>, \<open>b-c\<close>) was
  truncated. At layer 2 the child \<open>c\<close> of (\<open>a.com\<close>, \<open>b\<close>) creates a node with that
  name, and the branch of the truncated parent (\<open>a.com\<close>, \<open>b-c\<close>), whose joined name is
  the same, is then added below it: the edge from \<open>a.com-b-c\<close> to \<open>a.com-b-c-x\<close>
  hangs on a node that no previous layer created.
\<close>

theorem branch_under_truncated_parent:
  "make_sitemap_graph \<lparr> width = 3, rows = [([Some ''a.com'', Some ''b'', Some ''c''], 2),
       ([Some ''a.com'', Some ''b'', Some ''d''], 1), ([Some ''a.com'', Some ''b-c'', Some ''x''], 1)] \<rparr>
     1 1 ''8,5'' =
   Inr (1, False,
      [Line ''rankdir=LR'', Line (''size='' @ [CHR 0x22] @ ''8,5'' @ [CHR 0x22]),
       Attr ''node'' ''shape'' ''rectangle'', Node ''a.com'' ''a.com (4)'',
       Attr ''node'' ''shape'' ''oval'', Node ''a.com-b'' ''b'',
       Edge ''a.com'' ''a.com-b'' ''3'']) \<and>
   make_sitemap_graph \<lparr> width = 3, rows = [([Some ''a.com'', Some ''b'', Some ''c''], 2),
       ([Some ''a.com'', Some ''b'', Some ''d''], 1), ([Some ''a.com'', Some ''b-c'', Some ''x''], 1)] \<rparr>
     2 1 ''8,5'' =
   Inr (2, False,
      [Line ''rankdir=LR'', Line (''size='' @ [CHR 0x22] @ ''8,5'' @ [CHR 0x22]),
       Attr ''node'' ''shape'' ''rectangle'', Node ''a.com'' ''a.com (4)'',
       Attr ''node'' ''shape'' ''oval'', Node ''a.com-b'' ''b'',
       Edge ''a.com'' ''a.com-b'' ''3'',
       Node ''a.com-b-c'' ''c'', Edge ''a.com-b'' ''a.com-b-c'' ''2'',
       Node ''a.com-b-c-x'' ''x'', Edge ''a.com-b-c'' ''a.com-b-c-x'' ''1'']) \<and>
   connect_name [Some ''a.com'', Some ''b-c''] = ''a.com-b-c'' \<and>
   ''a.com-b-c'' \<notin> node_set
      [Line ''rankdir=LR'', Line (''size='' @ [CHR 0x22] @ ''8,5'' @ [CHR 0x22]),
       Attr ''node'' ''shape'' ''rectangle'', Node ''a.com'' ''a.com (4)'',
       Attr ''node'' ''shape'' ''oval'', Node ''a.com-b'' ''b'',
       Edge ''a.com'' ''a.com-b'' ''3'']"
  by (intro conjI; code_simp)

section \<open>Renderer: the limit on a branch\<close>

text \<open>
  Claim C8 against the code. On the example of the specification the code does what
  the claim says: with limit 1 and a parent \<open>a.com\<close> whose children \<open>x\<close>, \<open>y\<close>, \<open>z\<close> have
  the counts 5, 3 and 1, the graph holds only the node \<open>a.com-x\<close> and its edge
  labelled 5 (part 1). But the limit is applied to one parent tuple at a time, with
  \<open>[:limit]\<close>, and a node of the graph is a joined name. With limit 1 and the tuples
  (\<open>a.com\<close>, \<open>b-c\<close>) and (\<open>a.com-b\<close>, \<open>c\<close>), which share the name \<open>a.com-b-c\<close>, that node
  gets two children, \<open>x\<close> and \<open>y\<close> (part 2). With limit \<open>-1\<close> the slice drops the last
  child only, and two of the three children of the example are written (part 3).
\<close>

theorem limit_exceeded_on_a_node:
  "make_sitemap_graph
     \<lparr> width = 2, rows = [([Some ''a.com'', Some ''x''], 5), ([Some ''a.com'', Some ''y''], 3),
                           ([Some ''a.com'', Some ''z''], 1)] \<rparr> 1 1 ''8,5'' =
   Inr (1, False,
     [Line ''rankdir=LR'', Line (''size='' @ [CHR 0x22] @ ''8,5'' @ [CHR 0x22]),
      Attr ''node'' ''shape'' ''rectangle'', Node ''a.com'' ''a.com (9)'',
      Attr ''node'' ''shape'' ''oval'',
      Node ''a.com-x'' ''x'', Edge ''a.com'' ''a.com-x'' ''5'']) \<and>
   make_sitemap_graph
     \<lparr> width = 3, rows = [([Some ''a.com'', Some ''b-c'', Some ''x''], 4),
                           ([Some ''a.com-b'', Some ''c'', Some ''y''], 2),
                           ([Some ''a.com-b'', Some ''c'', Some ''z''], 1)] \<rparr> 2 1 ''8,5'' =
   Inr (2, False,
     [Line ''rankdir=LR'', Line (''size='' @ [CHR 0x22] @ ''8,5'' @ [CHR 0x22]),
      Attr ''node'' ''shape'' ''rectangle'',
      Node ''a.com'' ''a.com (4)'', Node ''a.com-b'' ''a.com-b (3)'',
      Attr ''node'' ''shape'' ''oval'',
      Node ''a.com-b-c'' ''b-c'', Edge ''a.com'' ''a.com-b-c'' ''4'',
      Node ''a.com-b-c'' ''c'', Edge ''a.com-b'' ''a.com-b-c'' ''3'',
      Node ''a.com-b-c-x'' ''x'', Edge ''a.com-b-c'' ''a.com-b-c-x'' ''4'',
      Node ''a.com-b-c-y'' ''y'', Edge ''a.com-b-c'' ''a.com-b-c-y'' ''2'']) \<and>
   make_sitemap_graph
     \<lparr> width = 2, rows = [([Some ''a.com'', Some ''x''], 5), ([Some ''a.com'', Some ''y''], 3),
                           ([Some ''a.com'', Some ''z''], 1)] \<rparr> 1 (- 1) ''8,5'' =
   Inr (1, False,
     [Line ''rankdir=LR'', Line (''size='' @ [CHR 0x22] @ ''8,5'' @ [CHR 0x22]),
      Attr ''node'' ''shape'' ''rectangle'', Node ''a.com'' ''a.com (9)'',
      Attr ''node'' ''shape'' ''oval'',
      Node ''a.com-x'' ''x'', Edge ''a.com'' ''a.com-x'' ''5'',
      Node ''a.com-y'' ''y'', Edge ''a.com'' ''a.com-y'' ''3''])"
  by (intro conjI; code_simp)

section \<open>Renderer: node names\<close>

lemma connect_name_snoc:
  "connect_name (k @ [Some s]) = (if k = [] then s else connect_name k @ ''-'' @ s)"
proof -
  have "join sep (xs @ [s]) = (if xs = [] then s else join sep xs @ sep @ s)" for sep xs
    by (induction sep xs rule: join.induct) auto
  from this[of "''-''" "map fmt_cell k"] show ?thesis
    by (simp add: connect_name_def fmt_cell_def)
qed

text \<open>
  Claim C10. The name under which a parent tuple is looked up is the \<open>-\<close>-joined text
  of its segments, and the node of a child is named by the parent's name, \<open>-\<close> and the
  child's segment. The names do not determine the tuples: (\<open>a.com\<close>, \<open>b-c\<close>) and
  (\<open>a.com-b\<close>, \<open>c\<close>) are different tuples with the one name \<open>a.com-b-c\<close>, and for a
  table that holds both, the two children are written as the same graph node.
\<close>

theorem node_names_not_injective:
  "connect_name (k @ [Some s]) = (if k = [] then s else connect_name k @ ''-'' @ s) \<and>
   branch_items c (name, val) =
     [Node (c @ ''-'' @ name) name, Edge c (c @ ''-'' @ name) (fmt_thousands val)] \<and>
   [Some ''a.com'', Some ''b-c''] \<noteq> [Some ''a.com-b'', Some ''c''] \<and>
   connect_name [Some ''a.com'', Some ''b-c''] = connect_name [Some ''a.com-b'', Some ''c''] \<and>
   make_sitemap_graph
     \<lparr> width = 2, rows = [([Some ''a.com'', Some ''b-c''], 2), ([Some ''a.com-b'', Some ''c''], 1)] \<rparr>
     1 50 ''8,5'' =
   Inr (1, False,
     [Line ''rankdir=LR'', Line (''size='' @ [CHR 0x22] @ ''8,5'' @ [CHR 0x22]),
      Attr ''node'' ''shape'' ''rectangle'',
      Node ''a.com'' ''a.com (2)'', Node ''a.com-b'' ''a.com-b (1)'',
      Attr ''node'' ''shape'' ''oval'',
      Node ''a.com-b-c'' ''b-c'', Edge ''a.com'' ''a.com-b-c'' ''2'',
      Node ''a.com-b-c'' ''c'', Edge ''a.com-b'' ''a.com-b-c'' ''1''])"
proof (intro conjI)
  show "connect_name (k @ [Some s]) = (if k = [] then s else connect_name k @ ''-'' @ s)"
    by (rule connect_name_snoc)
  show "make_sitemap_graph
     \<lparr> width = 2, rows = [([Some ''a.com'', Some ''b-c''], 2), ([Some ''a.com-b'', Some ''c''], 1)] \<rparr>
     1 50 ''8,5'' =
   Inr (1, False,
     [Line ''rankdir=LR'', Line (''size='' @ [CHR 0x22] @ ''8,5'' @ [CHR 0x22]),
      Attr ''node'' ''shape'' ''rectangle'',
      Node ''a.com'' ''a.com (2)'', Node ''a.com-b'' ''a.com-b (1)'',
      Attr ''node'' ''shape'' ''oval'',
      Node ''a.com-b-c'' ''b-c'', Edge ''a.com'' ''a.com-b-c'' ''2'',
      Node ''a.com-b-c'' ''c'', Edge ''a.com-b'' ''a.com-b-c'' ''1''])"
    by code_simp
qed (simp_all add: connect_name_def fmt_cell_def)

theorem node_names_not_injective_witness:
  "connect_name ([Some ''a.com''] @ [Some ''b-c'']) = ''a.com-b-c'' \<and>
   connect_name ([Some ''a.com-b''] @ [Some ''c'']) = ''a.com-b-c''"
  using node_names_not_injective[of "[Some ''a.com'']" "''b-c''"]
    node_names_not_injective[of "[Some ''a.com-b'']" "''c''"]
  by (simp add: connect_name_def fmt_cell_def)

section \<open>Renderer: the depth that is plotted\<close>

text \<open>
  Claim C4 against the code. The depth is clamped to the number of rows of the table
  minus one, not to the depth its columns allow. A table with the columns \<open>'0'\<close>, \<open>'1'\<close>
  and three rows, asked for depth 2, is not clamped to 1 and no message is printed;
  the loop reaches layer 2 and the missing column \<open>'2'\<close> raises \<open>KeyError\<close>. A table
  with the columns \<open>'0'\<close> to \<open>'3'\<close> and a single row, asked for depth 3, is clamped
  to 0 although three layers could be plotted.
\<close>

theorem clamp_by_row_count:
  "fst (clamp_layers df layers) = min layers (int (length (rows df)) - 1) \<and>
   clamp_layers \<lparr> width = 2, rows = [([Some ''a.com'', Some ''x''], 1), ([Some ''a.com'', Some ''y''], 1),
        ([Some ''a.com'', Some ''z''], 1)] \<rparr> 2 = (2, False) \<and>
   min 2 (max_available_depth \<lparr> width = 2, rows = [([Some ''a.com'', Some ''x''], 1),
        ([Some ''a.com'', Some ''y''], 1), ([Some ''a.com'', Some ''z''], 1)] \<rparr>) = 1 \<and>
   make_sitemap_graph \<lparr> width = 2, rows = [([Some ''a.com'', Some ''x''], 1),
        ([Some ''a.com'', Some ''y''], 1), ([Some ''a.com'', Some ''z''], 1)] \<rparr> 2 50 ''8,5''
     = Inl KeyError \<and>
   clamp_layers \<lparr> width = 4, rows = [([Some ''a.com'', Some ''x'', Some ''y'', Some ''z''], 1)] \<rparr> 3
     = (0, True) \<and>
   min 3 (max_available_depth
      \<lparr> width = 4, rows = [([Some ''a.com'', Some ''x'', Some ''y'', Some ''z''], 1)] \<rparr>) = 3"
proof (intro conjI)
  show "fst (clamp_layers df layers) = min layers (int (length (rows df)) - 1)"
    by (simp add: clamp_layers_def)
qed code_simp+

end
